theory Spec2Isabelle
  imports Main "HOL-Library.Word" "HOL-Library.Multiset"
begin

section \<open>The contract DeFiBuilderGameFHE\<close>

text \<open>
  The Solidity contract \<^verbatim>\<open>DeFiBuilderGameFHE\<close> (the second document of
  \<^verbatim>\<open>src/frontend/web/src/App.tsx\<close>) is embedded function by function. Storage is a
  record, one field per state variable; a Solidity mapping is a total function whose
  value at a key never written is the zero value of its type. An external function
  takes the transaction context (\<^verbatim>\<open>msg.sender\<close>, \<^verbatim>\<open>block.timestamp\<close>) and the storage and
  returns either the error it reverts with or the new storage: a revert undoes every
  write of the transaction, so the failing branch carries no state. Emitted events are
  appended to the field \<open>events\<close>.
\<close>

subsection \<open>Value types\<close>

type_synonym address = "160 word"
type_synonym uint256 = "256 word"
type_synonym bytes32 = "256 word"
type_synonym bytes = "8 word list"

text \<open>
  The encrypted types of the FHE library are user-defined value types over
  \<^verbatim>\<open>bytes32\<close>: a value is the handle of a ciphertext, \<^verbatim>\<open>toBytes32\<close> unwraps it, and the
  zero value of a mapping entry is the all-zero handle.
\<close>

type_synonym euint32 = bytes32
type_synonym ebool = bytes32

definition toBytes32 :: "bytes32 \<Rightarrow> bytes32" where
  "toBytes32 h = h"

subsection \<open>The external FHE capability\<close>

text \<open>
  The library \<^verbatim>\<open>@fhevm/solidity/lib/FHE.sol\<close> and the hash \<^verbatim>\<open>keccak256\<close> are not part of
  the repository. Their operations are parameters of the model: every contract
  function takes a record of them.
\<close>

record fhe =
  asEuint32 :: "32 word \<Rightarrow> euint32"
  asEbool :: "bool \<Rightarrow> ebool"
  fhe_add :: "euint32 \<Rightarrow> euint32 \<Rightarrow> euint32"
  fhe_ge :: "euint32 \<Rightarrow> euint32 \<Rightarrow> ebool"
  isInitialized :: "bytes32 \<Rightarrow> bool"
  checkSignatures :: "uint256 \<Rightarrow> bytes \<Rightarrow> bytes \<Rightarrow> bool"
  keccak256_encode :: "bytes32 list \<Rightarrow> address \<Rightarrow> bytes32"
  this :: address

subsection \<open>Errors and events\<close>

datatype error =
    NotOwner
  | NotProvider
  | PausedState
  | CooldownActive
  | BatchClosedOrNonExistent
  | ReplayAttempt
  | StateMismatch
  | InvalidProof
  | NotInitialized
  | InvalidBatchOperation
  | Panic  \<comment> \<open>checked arithmetic of Solidity 0.8: overflow reverts\<close>

datatype event =
    OwnershipTransferred address address
  | ProviderAdded address
  | ProviderRemoved address
  | CooldownSecondsSet uint256 uint256
  | Paused address
  | Unpaused address
  | BatchOpened uint256
  | BatchClosed uint256
  | CollateralSubmitted address uint256 bytes32
  | DebtSubmitted address uint256 bytes32
  | SolvencyCalculated uint256 bytes32
  | DecryptionRequested uint256 uint256 bytes32
  | DecryptionCompleted uint256 uint256 bool

subsection \<open>Storage\<close>

record DecryptionContext =
  batchId :: uint256
  stateHash :: bytes32
  processed :: bool

definition zeroContext :: DecryptionContext where
  "zeroContext = \<lparr>batchId = 0, stateHash = 0, processed = False\<rparr>"

record state =
  owner :: address
  isProvider :: "address \<Rightarrow> bool"
  lastSubmissionTime :: "address \<Rightarrow> uint256"
  lastDecryptionRequestTime :: "address \<Rightarrow> uint256"
  cooldownSeconds :: uint256
  paused :: bool
  currentBatchId :: uint256
  batchOpen :: bool
  decryptionContexts :: "uint256 \<Rightarrow> DecryptionContext"
  encryptedCollateralAmounts :: "uint256 \<Rightarrow> address \<Rightarrow> euint32"
  encryptedDebtAmounts :: "uint256 \<Rightarrow> address \<Rightarrow> euint32"
  totalEncryptedCollateral :: "uint256 \<Rightarrow> euint32"
  totalEncryptedDebt :: "uint256 \<Rightarrow> euint32"
  isProtocolSolvent :: "uint256 \<Rightarrow> ebool"
  events :: "event list"

record msg =
  sender :: address
  timestamp :: uint256

subsection \<open>Checked arithmetic\<close>

definition checked_add :: "uint256 \<Rightarrow> uint256 \<Rightarrow> uint256 option" where
  "checked_add a b = (if unat a + unat b < 2 ^ 256 then Some (a + b) else None)"

subsection \<open>Modifiers\<close>

text \<open>
  A modifier either reverts with an error or lets the body run. Modifiers run in the
  order they are written on the function.
\<close>

definition guarded :: "error option \<Rightarrow> error + 'a \<Rightarrow> error + 'a" where
  "guarded g body = (case g of Some e \<Rightarrow> Inl e | None \<Rightarrow> body)"

definition onlyOwner :: "msg \<Rightarrow> state \<Rightarrow> error option" where
  "onlyOwner m s = (if sender m \<noteq> owner s then Some NotOwner else None)"

definition onlyProvider :: "msg \<Rightarrow> state \<Rightarrow> error option" where
  "onlyProvider m s = (if \<not> isProvider s (sender m) then Some NotProvider else None)"

definition whenNotPaused :: "state \<Rightarrow> error option" where
  "whenNotPaused s = (if paused s then Some PausedState else None)"

definition respectCooldown ::
  "msg \<Rightarrow> address \<Rightarrow> (address \<Rightarrow> uint256) \<Rightarrow> state \<Rightarrow> error option" where
  "respectCooldown m user cooldownMapping s =
     (case checked_add (cooldownMapping user) (cooldownSeconds s) of
        None \<Rightarrow> Some Panic
      | Some limit \<Rightarrow> if timestamp m < limit then Some CooldownActive else None)"

subsection \<open>Internal functions\<close>

definition isValidBatch :: "state \<Rightarrow> uint256 \<Rightarrow> bool" where
  "isValidBatch s b = (b > 0 \<and> b \<le> currentBatchId s)"

definition initIfNeeded :: "fhe \<Rightarrow> bytes32 \<Rightarrow> error option" where
  "initIfNeeded F val = (if \<not> isInitialized F val then Some NotInitialized else None)"

definition hashCiphertexts :: "fhe \<Rightarrow> bytes32 list \<Rightarrow> bytes32" where
  "hashCiphertexts F cts = keccak256_encode F cts (this F)"

definition calculateSolvency_internal :: "fhe \<Rightarrow> uint256 \<Rightarrow> state \<Rightarrow> error + state" where
  "calculateSolvency_internal F b s =
     guarded (initIfNeeded F (totalEncryptedCollateral s b))
    (guarded (initIfNeeded F (totalEncryptedDebt s b))
      (let internalIsSolvent = fhe_ge F (totalEncryptedCollateral s b) (totalEncryptedDebt s b)
       in Inr (s\<lparr>isProtocolSolvent := (isProtocolSolvent s)(b := internalIsSolvent),
                 events := events s @ [SolvencyCalculated b (toBytes32 internalIsSolvent)]\<rparr>)))"

subsection \<open>Constructor and owner functions\<close>

definition constructor :: "msg \<Rightarrow> state" where
  "constructor m =
     \<lparr>owner = sender m,
      isProvider = (\<lambda>_. False)(sender m := True),
      lastSubmissionTime = (\<lambda>_. 0),
      lastDecryptionRequestTime = (\<lambda>_. 0),
      cooldownSeconds = 60,
      paused = False,
      currentBatchId = 0,
      batchOpen = False,
      decryptionContexts = (\<lambda>_. zeroContext),
      encryptedCollateralAmounts = (\<lambda>_ _. 0),
      encryptedDebtAmounts = (\<lambda>_ _. 0),
      totalEncryptedCollateral = (\<lambda>_. 0),
      totalEncryptedDebt = (\<lambda>_. 0),
      isProtocolSolvent = (\<lambda>_. 0),
      events = [ProviderAdded (sender m)]\<rparr>"

definition transferOwnership :: "msg \<Rightarrow> address \<Rightarrow> state \<Rightarrow> error + state" where
  "transferOwnership m newOwner s =
     guarded (onlyOwner m s)
       (let previousOwner = owner s
        in Inr (s\<lparr>owner := newOwner,
                  events := events s @ [OwnershipTransferred previousOwner newOwner]\<rparr>))"

definition addProvider :: "msg \<Rightarrow> address \<Rightarrow> state \<Rightarrow> error + state" where
  "addProvider m provider s =
     guarded (onlyOwner m s)
       (if \<not> isProvider s provider
        then Inr (s\<lparr>isProvider := (isProvider s)(provider := True),
                    events := events s @ [ProviderAdded provider]\<rparr>)
        else Inr s)"

definition removeProvider :: "msg \<Rightarrow> address \<Rightarrow> state \<Rightarrow> error + state" where
  "removeProvider m provider s =
     guarded (onlyOwner m s)
       (if isProvider s provider \<and> provider \<noteq> owner s
        then Inr (s\<lparr>isProvider := (isProvider s)(provider := False),
                    events := events s @ [ProviderRemoved provider]\<rparr>)
        else Inr s)"

definition setCooldownSeconds :: "msg \<Rightarrow> uint256 \<Rightarrow> state \<Rightarrow> error + state" where
  "setCooldownSeconds m newCooldownSeconds s =
     guarded (onlyOwner m s)
       (let oldCooldownSeconds = cooldownSeconds s
        in Inr (s\<lparr>cooldownSeconds := newCooldownSeconds,
                  events := events s @ [CooldownSecondsSet oldCooldownSeconds newCooldownSeconds]\<rparr>))"

definition pause :: "msg \<Rightarrow> state \<Rightarrow> error + state" where
  "pause m s =
     guarded (onlyOwner m s)
    (guarded (whenNotPaused s)
       (Inr (s\<lparr>paused := True, events := events s @ [Paused (sender m)]\<rparr>)))"

definition unpause :: "msg \<Rightarrow> state \<Rightarrow> error + state" where
  "unpause m s =
     guarded (onlyOwner m s)
       (Inr (s\<lparr>paused := False, events := events s @ [Unpaused (sender m)]\<rparr>))"

subsection \<open>Batches\<close>

definition openBatch :: "fhe \<Rightarrow> msg \<Rightarrow> state \<Rightarrow> error + state" where
  "openBatch F m s =
     guarded (onlyOwner m s)
    (guarded (whenNotPaused s)
       (if batchOpen s then Inl InvalidBatchOperation
        else case checked_add (currentBatchId s) 1 of
          None \<Rightarrow> Inl Panic
        | Some b \<Rightarrow>
            Inr (s\<lparr>currentBatchId := b,
                   batchOpen := True,
                   totalEncryptedCollateral := (totalEncryptedCollateral s)(b := asEuint32 F 0),
                   totalEncryptedDebt := (totalEncryptedDebt s)(b := asEuint32 F 0),
                   isProtocolSolvent := (isProtocolSolvent s)(b := asEbool F False),
                   events := events s @ [BatchOpened b]\<rparr>)))"

definition closeBatch :: "fhe \<Rightarrow> msg \<Rightarrow> state \<Rightarrow> error + state" where
  "closeBatch F m s =
     guarded (onlyOwner m s)
    (guarded (whenNotPaused s)
       (if \<not> batchOpen s then Inl InvalidBatchOperation
        else case calculateSolvency_internal F (currentBatchId s) (s\<lparr>batchOpen := False\<rparr>) of
          Inl e \<Rightarrow> Inl e
        | Inr s' \<Rightarrow> Inr (s'\<lparr>events := events s' @ [BatchClosed (currentBatchId s')]\<rparr>)))"

subsection \<open>Submissions and solvency\<close>

definition submitCollateral :: "fhe \<Rightarrow> msg \<Rightarrow> uint256 \<Rightarrow> euint32 \<Rightarrow> state \<Rightarrow> error + state" where
  "submitCollateral F m b encryptedAmount s =
     guarded (onlyProvider m s)
    (guarded (whenNotPaused s)
    (guarded (respectCooldown m (sender m) (lastSubmissionTime s) s)
       (if \<not> isValidBatch s b then Inl BatchClosedOrNonExistent
        else guarded (initIfNeeded F encryptedAmount)
          (Inr (s\<lparr>encryptedCollateralAmounts :=
                     (encryptedCollateralAmounts s)
                       (b := (encryptedCollateralAmounts s b)(sender m := encryptedAmount)),
                   totalEncryptedCollateral :=
                     (totalEncryptedCollateral s)
                       (b := fhe_add F (totalEncryptedCollateral s b) encryptedAmount),
                   lastSubmissionTime := (lastSubmissionTime s)(sender m := timestamp m),
                   events := events s @
                     [CollateralSubmitted (sender m) b (toBytes32 encryptedAmount)]\<rparr>)))))"

definition submitDebt :: "fhe \<Rightarrow> msg \<Rightarrow> uint256 \<Rightarrow> euint32 \<Rightarrow> state \<Rightarrow> error + state" where
  "submitDebt F m b encryptedAmount s =
     guarded (onlyProvider m s)
    (guarded (whenNotPaused s)
    (guarded (respectCooldown m (sender m) (lastSubmissionTime s) s)
       (if \<not> isValidBatch s b then Inl BatchClosedOrNonExistent
        else guarded (initIfNeeded F encryptedAmount)
          (Inr (s\<lparr>encryptedDebtAmounts :=
                     (encryptedDebtAmounts s)
                       (b := (encryptedDebtAmounts s b)(sender m := encryptedAmount)),
                   totalEncryptedDebt :=
                     (totalEncryptedDebt s)
                       (b := fhe_add F (totalEncryptedDebt s b) encryptedAmount),
                   lastSubmissionTime := (lastSubmissionTime s)(sender m := timestamp m),
                   events := events s @
                     [DebtSubmitted (sender m) b (toBytes32 encryptedAmount)]\<rparr>)))))"

definition calculateSolvency :: "fhe \<Rightarrow> msg \<Rightarrow> uint256 \<Rightarrow> state \<Rightarrow> error + state" where
  "calculateSolvency F m b s =
     guarded (onlyProvider m s)
    (guarded (whenNotPaused s)
    (guarded (respectCooldown m (sender m) (lastSubmissionTime s) s)
       (if \<not> isValidBatch s b then Inl BatchClosedOrNonExistent
        else calculateSolvency_internal F b s)))"

subsection \<open>The decryption protocol\<close>

text \<open>
  \<^verbatim>\<open>FHE.requestDecryption\<close> hands the ciphertexts to the external decryption channel and
  returns the request identifier the channel assigns. The identifier is an answer of
  the environment: it is the argument \<open>requestId\<close> of the model.
\<close>

definition requestSolvencyDecryption ::
  "fhe \<Rightarrow> msg \<Rightarrow> uint256 \<Rightarrow> uint256 \<Rightarrow> state \<Rightarrow> error + state" where
  "requestSolvencyDecryption F m b requestId s =
     guarded (onlyProvider m s)
    (guarded (whenNotPaused s)
    (guarded (respectCooldown m (sender m) (lastDecryptionRequestTime s) s)
       (if \<not> isValidBatch s b then Inl BatchClosedOrNonExistent
        else guarded (initIfNeeded F (isProtocolSolvent s b))
          (let cts = [toBytes32 (isProtocolSolvent s b)];
               h = hashCiphertexts F cts
           in Inr (s\<lparr>decryptionContexts :=
                       (decryptionContexts s)
                         (requestId := \<lparr>batchId = b, stateHash = h, processed = False\<rparr>),
                     lastDecryptionRequestTime :=
                       (lastDecryptionRequestTime s)(sender m := timestamp m),
                     events := events s @ [DecryptionRequested requestId b h]\<rparr>)))))"

definition myCallback :: "fhe \<Rightarrow> msg \<Rightarrow> uint256 \<Rightarrow> bytes \<Rightarrow> bytes \<Rightarrow> state \<Rightarrow> error + state" where
  "myCallback F m requestId cleartexts proof s =
     (if processed (decryptionContexts s requestId) then Inl ReplayAttempt
      else
        let cts = [toBytes32 (isProtocolSolvent s (batchId (decryptionContexts s requestId)))];
            currentHash = hashCiphertexts F cts
        in if currentHash \<noteq> stateHash (decryptionContexts s requestId) then Inl StateMismatch
           else if \<not> checkSignatures F requestId cleartexts proof then Inl InvalidProof
           else if length cleartexts \<noteq> 1 then Inl InvalidProof
           else
             let isSolvent = (cleartexts ! 0 \<noteq> 0)
             in Inr (s\<lparr>decryptionContexts :=
                         (decryptionContexts s)
                           (requestId := (decryptionContexts s requestId)\<lparr>processed := True\<rparr>),
                       events := events s @
                         [DecryptionCompleted requestId
                            (batchId (decryptionContexts s requestId)) isSolvent]\<rparr>))"

subsection \<open>Transactions and runs\<close>

text \<open>
  One constructor per external function. A run executes transactions one after the
  other; a transaction that reverts leaves the storage as it was.
\<close>

datatype call =
    TransferOwnership address
  | AddProvider address
  | RemoveProvider address
  | SetCooldownSeconds uint256
  | Pause
  | Unpause
  | OpenBatch
  | CloseBatch
  | SubmitCollateral uint256 euint32
  | SubmitDebt uint256 euint32
  | CalculateSolvency uint256
  | RequestSolvencyDecryption uint256 uint256
  | MyCallback uint256 bytes bytes

fun step :: "fhe \<Rightarrow> msg \<times> call \<Rightarrow> state \<Rightarrow> error + state" where
  "step F (m, TransferOwnership a) s = transferOwnership m a s"
| "step F (m, AddProvider a) s = addProvider m a s"
| "step F (m, RemoveProvider a) s = removeProvider m a s"
| "step F (m, SetCooldownSeconds n) s = setCooldownSeconds m n s"
| "step F (m, Pause) s = pause m s"
| "step F (m, Unpause) s = unpause m s"
| "step F (m, OpenBatch) s = openBatch F m s"
| "step F (m, CloseBatch) s = closeBatch F m s"
| "step F (m, SubmitCollateral b v) s = submitCollateral F m b v s"
| "step F (m, SubmitDebt b v) s = submitDebt F m b v s"
| "step F (m, CalculateSolvency b) s = calculateSolvency F m b s"
| "step F (m, RequestSolvencyDecryption b r) s = requestSolvencyDecryption F m b r s"
| "step F (m, MyCallback r c p) s = myCallback F m r c p s"

fun run :: "fhe \<Rightarrow> state \<Rightarrow> (msg \<times> call) list \<Rightarrow> state" where
  "run F s [] = s"
| "run F s (c # cs) = (case step F c s of Inl e \<Rightarrow> run F s cs | Inr s' \<Rightarrow> run F s' cs)"


subsection \<open>Request identifiers in a run\<close>

text \<open>
  \<open>assigns r c\<close>: the transaction \<open>c\<close> is a decryption request to which the channel
  gives the identifier \<open>r\<close>. \<open>fulfils r c\<close>: \<open>c\<close> is a callback for the request \<open>r\<close>.
\<close>

fun assigns :: "uint256 \<Rightarrow> call \<Rightarrow> bool" where
  "assigns r (RequestSolvencyDecryption b r') = (r' = r)"
| "assigns r _ = False"

fun fulfils :: "uint256 \<Rightarrow> call \<Rightarrow> bool" where
  "fulfils r (MyCallback r' c p) = (r' = r)"
| "fulfils r _ = False"

subsection \<open>Submissions in a run\<close>

text \<open>
  \<open>submission c\<close>: the transaction is a call of \<open>submitCollateral\<close> or \<open>submitDebt\<close>.
  \<open>acceptedCollateral F b s cs\<close> lists, in order, the ciphertexts of the collateral
  submissions into batch \<open>b\<close> that the run \<open>cs\<close> from \<open>s\<close> accepts (the transaction
  does not revert); \<open>acceptedDebt\<close> does the same for debt.
\<close>

fun submission :: "call \<Rightarrow> bool" where
  "submission (SubmitCollateral b v) = True"
| "submission (SubmitDebt b v) = True"
| "submission _ = False"

fun collateralOf :: "uint256 \<Rightarrow> call \<Rightarrow> euint32 list" where
  "collateralOf b (SubmitCollateral b' v) = (if b' = b then [v] else [])"
| "collateralOf b _ = []"

fun debtOf :: "uint256 \<Rightarrow> call \<Rightarrow> euint32 list" where
  "debtOf b (SubmitDebt b' v) = (if b' = b then [v] else [])"
| "debtOf b _ = []"

fun acceptedCollateral :: "fhe \<Rightarrow> uint256 \<Rightarrow> state \<Rightarrow> (msg \<times> call) list \<Rightarrow> euint32 list" where
  "acceptedCollateral F b s [] = []"
| "acceptedCollateral F b s (c # cs) =
     (case step F c s of
        Inl e \<Rightarrow> acceptedCollateral F b s cs
      | Inr s' \<Rightarrow> collateralOf b (snd c) @ acceptedCollateral F b s' cs)"

fun acceptedDebt :: "fhe \<Rightarrow> uint256 \<Rightarrow> state \<Rightarrow> (msg \<times> call) list \<Rightarrow> euint32 list" where
  "acceptedDebt F b s [] = []"
| "acceptedDebt F b s (c # cs) =
     (case step F c s of
        Inl e \<Rightarrow> acceptedDebt F b s cs
      | Inr s' \<Rightarrow> debtOf b (snd c) @ acceptedDebt F b s' cs)"

subsection \<open>A plaintext instance of the FHE capability\<close>

text \<open>
  The concrete runs below need an instance of the external capability. \<open>plainFHE\<close>
  computes on plaintexts: the handle of a 32-bit value \<open>v\<close> is \<open>v + 1\<close>, the handle of
  false is 1 and of true is 2, so that the all-zero handle is the only one that is not
  initialized. \<open>plain_dec32\<close> and \<open>plain_decb\<close> read a handle back.
\<close>

definition plainFHE :: fhe where
  "plainFHE =
     \<lparr>asEuint32 = (\<lambda>v. ucast v + 1),
      asEbool = (\<lambda>b. if b then 2 else 1),
      fhe_add = (\<lambda>a b. a + b - 1),
      fhe_ge = (\<lambda>a b. if (ucast (b - 1) :: 32 word) \<le> ucast (a - 1) then 2 else 1),
      isInitialized = (\<lambda>h. h \<noteq> 0),
      checkSignatures = (\<lambda>r c p. True),
      keccak256_encode = (\<lambda>cts a. sum_list cts + ucast a),
      this = 42\<rparr>"

definition plain_dec32 :: "euint32 \<Rightarrow> 32 word" where
  "plain_dec32 h = ucast (h - 1)"

definition plain_decb :: "ebool \<Rightarrow> bool" where
  "plain_decb h = (h = 2)"

text \<open>
  Address 1 deploys the contract; it opens batch 1 at time 100 and requests the
  decryption of its solvency flag at time 200, the channel answering with request 7.
\<close>

definition demoOpened :: state where
  "demoOpened = run plainFHE (constructor \<lparr>sender = 1, timestamp = 0\<rparr>)
     [(\<lparr>sender = 1, timestamp = 100\<rparr>, OpenBatch)]"

definition demoRequested :: state where
  "demoRequested = run plainFHE demoOpened
     [(\<lparr>sender = 1, timestamp = 200\<rparr>, RequestSolvencyDecryption 1 7)]"

text \<open>
  Further states of the same deployment: just deployed; batch 1 closed at time 150;
  the contract paused at time 150 with batch 1 open.
\<close>

definition demoDeployed :: state where
  "demoDeployed = constructor \<lparr>sender = 1, timestamp = 0\<rparr>"

definition demoClosed :: state where
  "demoClosed = run plainFHE demoOpened [(\<lparr>sender = 1, timestamp = 150\<rparr>, CloseBatch)]"

definition demoPaused :: state where
  "demoPaused = run plainFHE demoOpened [(\<lparr>sender = 1, timestamp = 150\<rparr>, Pause)]"


text \<open>
  With batch 1 open: a collateral submission accepted at time 100; the batch opened at
  time 0 instead; collateral 100 and debt 80 submitted; collateral 50 and debt 80
  submitted.
\<close>

definition demoSubmitted :: state where
  "demoSubmitted = run plainFHE demoOpened
     [(\<lparr>sender = 1, timestamp = 100\<rparr>, SubmitCollateral 1 6)]"

definition demoOpenedEarly :: state where
  "demoOpenedEarly = run plainFHE demoDeployed [(\<lparr>sender = 1, timestamp = 0\<rparr>, OpenBatch)]"

definition demoC100D80 :: state where
  "demoC100D80 = run plainFHE demoOpened
     [(\<lparr>sender = 1, timestamp = 100\<rparr>, SubmitCollateral 1 101),
      (\<lparr>sender = 1, timestamp = 200\<rparr>, SubmitDebt 1 81)]"

definition demoC50D80 :: state where
  "demoC50D80 = run plainFHE demoOpened
     [(\<lparr>sender = 1, timestamp = 100\<rparr>, SubmitCollateral 1 51),
      (\<lparr>sender = 1, timestamp = 200\<rparr>, SubmitDebt 1 81)]"

section \<open>Properties\<close>

lemmas modifier_defs = guarded_def onlyOwner_def onlyProvider_def whenNotPaused_def
  respectCooldown_def initIfNeeded_def

lemmas function_defs = transferOwnership_def addProvider_def removeProvider_def
  setCooldownSeconds_def pause_def unpause_def openBatch_def closeBatch_def
  submitCollateral_def submitDebt_def calculateSolvency_def calculateSolvency_internal_def
  requestSolvencyDecryption_def myCallback_def

lemmas demo_defs = demoDeployed_def demoClosed_def demoPaused_def demoRequested_def demoOpened_def
  demoSubmitted_def demoOpenedEarly_def demoC100D80_def demoC50D80_def

lemmas eval_defs = function_defs modifier_defs constructor_def checked_add_def isValidBatch_def
  hashCiphertexts_def toBytes32_def zeroContext_def plainFHE_def Let_def

subsection \<open>What a transaction does to a decryption context\<close>

lemma step_context_unchanged:
  assumes "step F (m, c) s = Inr s'" and "\<not> assigns r c" and "\<not> fulfils r c"
  shows "decryptionContexts s' r = decryptionContexts s r"
  using assms
  by (cases c)
     (auto simp: function_defs modifier_defs Let_def split: if_splits option.splits sum.splits)

lemma step_processed_kept:
  assumes "step F (m, c) s = Inr s'" and "\<not> assigns r c"
    and "processed (decryptionContexts s r)"
  shows "processed (decryptionContexts s' r)"
  using assms
  by (cases c)
     (auto simp: function_defs modifier_defs Let_def split: if_splits option.splits sum.splits)

lemma run_processed_kept:
  assumes "\<forall>x \<in> set cs. \<not> assigns r (snd x)" and "processed (decryptionContexts s r)"
  shows "processed (decryptionContexts (run F s cs) r)"
  using assms
proof (induction cs arbitrary: s)
  case Nil
  then show ?case by simp
next
  case (Cons x cs)
  obtain m c where x: "x = (m, c)" by (cases x)
  show ?case
  proof (cases "step F x s")
    case (Inl e)
    with Cons show ?thesis by simp
  next
    case (Inr s')
    with Cons.prems x have "processed (decryptionContexts s' r)"
      by (auto intro: step_processed_kept)
    with Cons Inr show ?thesis by simp
  qed
qed

lemma run_context_unchanged:
  assumes "\<forall>x \<in> set cs. \<not> assigns r (snd x) \<and> \<not> fulfils r (snd x)"
  shows "decryptionContexts (run F s cs) r = decryptionContexts s r"
  using assms
proof (induction cs arbitrary: s)
  case Nil
  then show ?case by simp
next
  case (Cons x cs)
  obtain m c where x: "x = (m, c)" by (cases x)
  show ?case
  proof (cases "step F x s")
    case (Inl e)
    with Cons show ?thesis by simp
  next
    case (Inr s')
    with Cons.prems x have "decryptionContexts s' r = decryptionContexts s r"
      by (auto intro: step_context_unchanged)
    with Cons Inr show ?thesis by simp
  qed
qed

subsection \<open>Replay protection\<close>

text \<open>
  Claim C1. Once \<open>myCallback\<close> has succeeded for a request identifier \<open>r\<close>, the request
  is marked processed, it was not processed before, and it stays processed through
  every later run of transactions; every later \<open>myCallback\<close> for \<open>r\<close> reverts with
  \<open>ReplayAttempt\<close>, whoever calls it and whatever cleartexts and proof it carries. Request
  identifiers come from the external channel, which hands out fresh ones: the run
  contains no request to which the channel gives \<open>r\<close> again.
\<close>

theorem fulfilment_replay_rejected:
  assumes ok: "myCallback F m r c p s = Inr s1"
    and fresh: "\<forall>x \<in> set cs. \<not> assigns r (snd x)"
  shows "\<not> processed (decryptionContexts s r)
       \<and> processed (decryptionContexts (run F s1 cs) r)
       \<and> myCallback F m' r c' p' (run F s1 cs) = Inl ReplayAttempt"
proof -
  from ok have before: "\<not> processed (decryptionContexts s r)"
    by (auto simp: myCallback_def split: if_splits)
  from ok have "processed (decryptionContexts s1 r)"
    by (auto simp: myCallback_def Let_def split: if_splits)
  with fresh have after: "processed (decryptionContexts (run F s1 cs) r)"
    by (rule run_processed_kept)
  then have "myCallback F m' r c' p' (run F s1 cs) = Inl ReplayAttempt"
    by (simp add: myCallback_def)
  with before after show ?thesis by simp
qed

theorem fulfilment_replay_rejected_witness:
  "myCallback plainFHE \<lparr>sender = 9, timestamp = 300\<rparr> 7 [1] [] demoRequested
     = Inr (run plainFHE demoRequested [(\<lparr>sender = 9, timestamp = 300\<rparr>, MyCallback 7 [1] [])])
   \<and> myCallback plainFHE \<lparr>sender = 1, timestamp = 500\<rparr> 7 [0] [5]
        (run plainFHE
           (run plainFHE demoRequested [(\<lparr>sender = 9, timestamp = 300\<rparr>, MyCallback 7 [1] [])])
           [(\<lparr>sender = 1, timestamp = 400\<rparr>, CalculateSolvency 1)])
     = Inl ReplayAttempt"
proof -
  have ok: "myCallback plainFHE \<lparr>sender = 9, timestamp = 300\<rparr> 7 [1] [] demoRequested
     = Inr (run plainFHE demoRequested [(\<lparr>sender = 9, timestamp = 300\<rparr>, MyCallback 7 [1] [])])"
    by (simp add: demoRequested_def demoOpened_def eval_defs)
  have fresh: "\<forall>x \<in> set [(\<lparr>sender = 1, timestamp = 400\<rparr>, CalculateSolvency 1)].
      \<not> assigns 7 (snd x)"
    by simp
  from fulfilment_replay_rejected [OF ok fresh] ok show ?thesis by blast
qed

subsection \<open>State binding\<close>

text \<open>
  Claim C2. A request \<open>r\<close> for batch \<open>b\<close> is stored in state \<open>s0\<close>; transactions follow,
  none of them a callback for \<open>r\<close> (the request is still pending). If the fingerprint
  of the solvency ciphertext of \<open>b\<close> is now different from the fingerprint of the
  ciphertext at request time, \<open>myCallback\<close> reverts with \<open>StateMismatch\<close>, for every
  cleartext and every proof, also one that \<open>checkSignatures\<close> accepts, and the request
  is not marked processed.
\<close>

theorem stale_fulfilment_rejected:
  assumes req: "requestSolvencyDecryption F m b r s0 = Inr s1"
    and pending: "\<forall>x \<in> set cs. \<not> assigns r (snd x) \<and> \<not> fulfils r (snd x)"
    and changed: "hashCiphertexts F [toBytes32 (isProtocolSolvent (run F s1 cs) b)]
                  \<noteq> hashCiphertexts F [toBytes32 (isProtocolSolvent s0 b)]"
  shows "myCallback F m' r c p (run F s1 cs) = Inl StateMismatch
       \<and> \<not> processed (decryptionContexts (run F s1 cs) r)"
proof -
  from req have ctx1: "decryptionContexts s1 r =
      \<lparr>batchId = b, stateHash = hashCiphertexts F [toBytes32 (isProtocolSolvent s0 b)],
       processed = False\<rparr>"
    by (auto simp: requestSolvencyDecryption_def modifier_defs Let_def
             split: if_splits option.splits)
  from pending have "decryptionContexts (run F s1 cs) r = decryptionContexts s1 r"
    by (rule run_context_unchanged)
  with ctx1 changed show ?thesis
    by (simp add: myCallback_def Let_def)
qed

theorem stale_fulfilment_rejected_witness:
  "requestSolvencyDecryption plainFHE \<lparr>sender = 1, timestamp = 200\<rparr> 1 7 demoOpened
     = Inr demoRequested
   \<and> isProtocolSolvent demoOpened 1 = 1
   \<and> isProtocolSolvent
        (run plainFHE demoRequested
           [(\<lparr>sender = 1, timestamp = 300\<rparr>, SubmitCollateral 1 6),
            (\<lparr>sender = 1, timestamp = 400\<rparr>, CalculateSolvency 1)]) 1 = 2
   \<and> checkSignatures plainFHE 7 [1] []
   \<and> myCallback plainFHE \<lparr>sender = 9, timestamp = 500\<rparr> 7 [1] []
        (run plainFHE demoRequested
           [(\<lparr>sender = 1, timestamp = 300\<rparr>, SubmitCollateral 1 6),
            (\<lparr>sender = 1, timestamp = 400\<rparr>, CalculateSolvency 1)])
     = Inl StateMismatch"
proof -
  let ?cs = "[(\<lparr>sender = 1, timestamp = 300\<rparr>, SubmitCollateral 1 6),
              (\<lparr>sender = 1, timestamp = 400\<rparr>, CalculateSolvency 1)]"
  have req: "requestSolvencyDecryption plainFHE \<lparr>sender = 1, timestamp = 200\<rparr> 1 7 demoOpened
     = Inr demoRequested"
    by (simp add: demoRequested_def demoOpened_def eval_defs)
  have pending: "\<forall>x \<in> set ?cs. \<not> assigns 7 (snd x) \<and> \<not> fulfils 7 (snd x)"
    by simp
  have old: "isProtocolSolvent demoOpened 1 = 1"
    by (simp add: demoOpened_def eval_defs)
  have new: "isProtocolSolvent (run plainFHE demoRequested ?cs) 1 = 2"
    by (simp add: demoRequested_def demoOpened_def eval_defs)
  have changed: "hashCiphertexts plainFHE [toBytes32 (isProtocolSolvent (run plainFHE demoRequested ?cs) 1)]
      \<noteq> hashCiphertexts plainFHE [toBytes32 (isProtocolSolvent demoOpened 1)]"
    unfolding old new by (simp add: hashCiphertexts_def toBytes32_def plainFHE_def)
  have sig: "checkSignatures plainFHE 7 [1] []"
    by (simp add: plainFHE_def)
  from stale_fulfilment_rejected [OF req pending changed] req old new sig
  show ?thesis by blast
qed


subsection \<open>Checked increment\<close>

lemma checked_add_one: "checked_add a 1 = (if a = - 1 then None else Some (a + 1))"
proof (cases "a = - 1")
  case True
  then show ?thesis by (simp add: checked_add_def unsigned_minus_1_eq_mask mask_eq_exp_minus_1)
next
  case False
  then have "unat a \<noteq> unat (- 1 :: uint256)"
    by (simp add: word_unat_eq_iff)
  moreover have "unat a < 2 ^ 256"
    using unsigned_less [of a] by simp
  ultimately have "unat a + 1 < 2 ^ 256"
    by (simp add: unsigned_minus_1_eq_mask mask_eq_exp_minus_1)
  with False show ?thesis by (simp add: checked_add_def)
qed

subsection \<open>Owner and provider role\<close>

text \<open>
  \<open>removeProvider\<close> never touches the owner, and every transaction but a transfer of
  ownership keeps the owner a provider. \<open>transferOwnership\<close> installs the new owner
  without giving it the provider role: the owner is a provider afterwards only if the
  new owner already was one.
\<close>

lemma removeProvider_owner_noop:
  "removeProvider m (owner s) s = (if sender m = owner s then Inr s else Inl NotOwner)"
  by (simp add: removeProvider_def guarded_def onlyOwner_def)

lemma step_keeps_owner_provider:
  assumes "step F (m, c) s = Inr s'" and "isProvider s (owner s)"
    and "\<forall>a. c \<noteq> TransferOwnership a"
  shows "isProvider s' (owner s')"
  using assms
  by (cases c)
     (auto simp: function_defs modifier_defs Let_def split: if_splits option.splits sum.splits)

lemma transferOwnership_owner_provider:
  assumes "transferOwnership m a s = Inr s'"
  shows "isProvider s' (owner s') \<longleftrightarrow> isProvider s a"
  using assms
  by (auto simp: transferOwnership_def guarded_def onlyOwner_def split: if_splits)


text \<open>
  Claim C3 (owner is a provider in every reachable state) fails on the code. Address 1
  deploys the contract and transfers ownership to address 2, which was never added as
  a provider: the transfer succeeds and the owner is not a provider.
\<close>

theorem transferOwnership_leaves_owner_without_role:
  "(case transferOwnership \<lparr>sender = 1, timestamp = 100\<rparr> 2
           (constructor \<lparr>sender = 1, timestamp = 0\<rparr>) of
      Inl e \<Rightarrow> False
    | Inr s' \<Rightarrow> owner s' = 2 \<and> \<not> isProvider s' (owner s'))"
  by (simp add: transferOwnership_def constructor_def guarded_def onlyOwner_def)

subsection \<open>Batch validity of a submission\<close>

text \<open>
  Claim C4, as stated for every caller, fails: the role modifier runs before the batch
  check, so a caller without the provider role submitting to batch 0 gets
  \<open>NotProvider\<close>, not \<open>BatchClosedOrNonExistent\<close>.
\<close>

theorem submission_batch_validity_counterexample:
  "submitCollateral plainFHE \<lparr>sender = 2, timestamp = 200\<rparr> 0 6 demoOpened = Inl NotProvider
   \<and> submitCollateral plainFHE \<lparr>sender = 2, timestamp = 200\<rparr> 0 6 demoOpened
        \<noteq> Inl BatchClosedOrNonExistent"
  by (simp add: demo_defs eval_defs)

text \<open>
  Claim C4, amended. For a caller that passes the role, pause and cooldown modifiers,
  \<open>submitCollateral\<close> and \<open>submitDebt\<close> revert with \<open>BatchClosedOrNonExistent\<close> exactly
  when the batch id is 0 or above \<open>currentBatchId\<close>. For a batch id in range the call is
  accepted as soon as the ciphertext is initialized; \<open>batchOpen\<close> is not consulted, so
  this holds for a closed batch as well.
\<close>

theorem submission_batch_validity:
  assumes "isProvider s (sender m)" and "\<not> paused s"
    and "respectCooldown m (sender m) (lastSubmissionTime s) s = None"
  shows "(submitCollateral F m b v s = Inl BatchClosedOrNonExistent
            \<longleftrightarrow> b = 0 \<or> currentBatchId s < b)
       \<and> (submitDebt F m b v s = Inl BatchClosedOrNonExistent
            \<longleftrightarrow> b = 0 \<or> currentBatchId s < b)
       \<and> (0 < b \<and> b \<le> currentBatchId s \<and> isInitialized F v \<longrightarrow>
            (\<exists>s'. submitCollateral F m b v s = Inr s') \<and> (\<exists>s'. submitDebt F m b v s = Inr s'))"
  using assms
  by (auto simp: submitCollateral_def submitDebt_def guarded_def onlyProvider_def
        whenNotPaused_def initIfNeeded_def isValidBatch_def word_greater_zero_iff not_le)

theorem submission_batch_validity_witness:
  "\<not> batchOpen demoClosed \<and> currentBatchId demoClosed = 1
   \<and> submitCollateral plainFHE \<lparr>sender = 1, timestamp = 200\<rparr> 0 6 demoClosed
        = Inl BatchClosedOrNonExistent
   \<and> submitDebt plainFHE \<lparr>sender = 1, timestamp = 200\<rparr> 2 6 demoClosed
        = Inl BatchClosedOrNonExistent
   \<and> (\<exists>s'. submitCollateral plainFHE \<lparr>sender = 1, timestamp = 200\<rparr> 1 6 demoClosed = Inr s')
   \<and> (\<exists>s'. submitDebt plainFHE \<lparr>sender = 1, timestamp = 200\<rparr> 1 6 demoClosed = Inr s')"
proof -
  let ?m = "\<lparr>sender = 1, timestamp = 200\<rparr> :: msg"
  have role: "isProvider demoClosed (sender ?m)"
    by (simp add: demo_defs eval_defs)
  have unpaused: "\<not> paused demoClosed"
    by (simp add: demo_defs eval_defs)
  have cool: "respectCooldown ?m (sender ?m) (lastSubmissionTime demoClosed) demoClosed = None"
    by (simp add: demo_defs eval_defs)
  have closed: "\<not> batchOpen demoClosed"
    by (simp add: demo_defs eval_defs)
  have cur: "currentBatchId demoClosed = 1"
    by (simp add: demo_defs eval_defs)
  have init: "isInitialized plainFHE 6"
    by (simp add: plainFHE_def)
  note inst = submission_batch_validity [OF role unpaused cool, where F = plainFHE and v = 6]
  have a: "submitCollateral plainFHE ?m 0 6 demoClosed = Inl BatchClosedOrNonExistent"
    using inst [of 0] by simp
  have b: "submitDebt plainFHE ?m 2 6 demoClosed = Inl BatchClosedOrNonExistent"
    using inst [of 2] by (simp add: cur)
  have c: "(\<exists>s'. submitCollateral plainFHE ?m 1 6 demoClosed = Inr s')
         \<and> (\<exists>s'. submitDebt plainFHE ?m 1 6 demoClosed = Inr s')"
    using inst [of 1] init by (simp add: cur)
  from closed cur a b c show ?thesis by blast
qed

subsection \<open>Opening and closing a batch\<close>

text \<open>
  Claim C7, as stated, fails: \<open>openBatch\<close> also fails when no batch is open, and
  \<open>closeBatch\<close> when one is, if the caller is not the owner.
\<close>

theorem batch_lifecycle_counterexample:
  "\<not> batchOpen demoDeployed
   \<and> openBatch plainFHE \<lparr>sender = 2, timestamp = 100\<rparr> demoDeployed = Inl NotOwner
   \<and> batchOpen demoOpened
   \<and> closeBatch plainFHE \<lparr>sender = 2, timestamp = 200\<rparr> demoOpened = Inl NotOwner"
  by (simp add: demo_defs eval_defs)

text \<open>
  Claim C7, amended. Called by the owner while the contract is not paused,
  \<open>openBatch\<close> reverts with \<open>InvalidBatchOperation\<close> exactly when a batch is open, and
  fails at all exactly then or when the counter is at the largest \<^verbatim>\<open>uint256\<close>; otherwise
  it adds one to \<open>currentBatchId\<close>, sets \<open>batchOpen\<close>, and stores the encryption of zero
  as both totals and the encryption of false as the solvency flag of the new batch.
  \<open>closeBatch\<close> reverts with \<open>InvalidBatchOperation\<close> exactly when no batch is open;
  with a batch open whose totals are initialized ciphertexts it clears \<open>batchOpen\<close>
  and stores the comparison of the two totals as the solvency flag of the current batch.
\<close>

theorem batch_lifecycle:
  assumes "sender m = owner s" and "\<not> paused s"
  shows "(openBatch F m s = Inl InvalidBatchOperation \<longleftrightarrow> batchOpen s)
       \<and> ((\<exists>e. openBatch F m s = Inl e) \<longleftrightarrow> batchOpen s \<or> currentBatchId s = - 1)
       \<and> (\<not> batchOpen s \<and> currentBatchId s \<noteq> - 1 \<longrightarrow>
            openBatch F m s =
              Inr (s\<lparr>currentBatchId := currentBatchId s + 1,
                     batchOpen := True,
                     totalEncryptedCollateral :=
                       (totalEncryptedCollateral s)(currentBatchId s + 1 := asEuint32 F 0),
                     totalEncryptedDebt :=
                       (totalEncryptedDebt s)(currentBatchId s + 1 := asEuint32 F 0),
                     isProtocolSolvent :=
                       (isProtocolSolvent s)(currentBatchId s + 1 := asEbool F False),
                     events := events s @ [BatchOpened (currentBatchId s + 1)]\<rparr>))
       \<and> (closeBatch F m s = Inl InvalidBatchOperation \<longleftrightarrow> \<not> batchOpen s)
       \<and> (batchOpen s \<and> isInitialized F (totalEncryptedCollateral s (currentBatchId s))
            \<and> isInitialized F (totalEncryptedDebt s (currentBatchId s)) \<longrightarrow>
            closeBatch F m s =
              Inr (s\<lparr>batchOpen := False,
                     isProtocolSolvent :=
                       (isProtocolSolvent s)
                         (currentBatchId s :=
                            fhe_ge F (totalEncryptedCollateral s (currentBatchId s))
                                     (totalEncryptedDebt s (currentBatchId s))),
                     events := events s @
                       [SolvencyCalculated (currentBatchId s)
                          (fhe_ge F (totalEncryptedCollateral s (currentBatchId s))
                                    (totalEncryptedDebt s (currentBatchId s))),
                        BatchClosed (currentBatchId s)]\<rparr>))"
  using assms
  by (auto simp: openBatch_def closeBatch_def calculateSolvency_internal_def guarded_def
        onlyOwner_def whenNotPaused_def initIfNeeded_def checked_add_one toBytes32_def Let_def)

theorem batch_lifecycle_witness:
  "(\<exists>s'. openBatch plainFHE \<lparr>sender = 1, timestamp = 100\<rparr> demoDeployed = Inr s'
          \<and> currentBatchId s' = 1 \<and> batchOpen s'
          \<and> totalEncryptedCollateral s' 1 = asEuint32 plainFHE 0
          \<and> totalEncryptedDebt s' 1 = asEuint32 plainFHE 0
          \<and> isProtocolSolvent s' 1 = asEbool plainFHE False)
   \<and> closeBatch plainFHE \<lparr>sender = 1, timestamp = 100\<rparr> demoDeployed = Inl InvalidBatchOperation
   \<and> openBatch plainFHE \<lparr>sender = 1, timestamp = 150\<rparr> demoOpened = Inl InvalidBatchOperation
   \<and> (\<exists>s'. closeBatch plainFHE \<lparr>sender = 1, timestamp = 150\<rparr> demoOpened = Inr s'
          \<and> \<not> batchOpen s' \<and> currentBatchId s' = 1
          \<and> isProtocolSolvent s' 1 = fhe_ge plainFHE (asEuint32 plainFHE 0) (asEuint32 plainFHE 0))"
proof -
  let ?m = "\<lparr>sender = 1, timestamp = 100\<rparr> :: msg"
  let ?m' = "\<lparr>sender = 1, timestamp = 150\<rparr> :: msg"
  have own0: "sender ?m = owner demoDeployed" and run0: "\<not> paused demoDeployed"
    and shut0: "\<not> batchOpen demoDeployed" and cur0: "currentBatchId demoDeployed = 0"
    by (simp_all add: demo_defs eval_defs)
  have own1: "sender ?m' = owner demoOpened" and run1: "\<not> paused demoOpened"
    and open1: "batchOpen demoOpened" and cur1: "currentBatchId demoOpened = 1"
    and tot1: "totalEncryptedCollateral demoOpened 1 = asEuint32 plainFHE 0"
              "totalEncryptedDebt demoOpened 1 = asEuint32 plainFHE 0"
    and init: "isInitialized plainFHE (asEuint32 plainFHE 0)"
    by (simp_all add: demo_defs eval_defs)
  note first = batch_lifecycle [OF own0 run0, where F = plainFHE]
  note second = batch_lifecycle [OF own1 run1, where F = plainFHE]
  have a: "\<exists>s'. openBatch plainFHE ?m demoDeployed = Inr s'
          \<and> currentBatchId s' = 1 \<and> batchOpen s'
          \<and> totalEncryptedCollateral s' 1 = asEuint32 plainFHE 0
          \<and> totalEncryptedDebt s' 1 = asEuint32 plainFHE 0
          \<and> isProtocolSolvent s' 1 = asEbool plainFHE False"
    using first shut0 by (simp add: cur0)
  have b: "closeBatch plainFHE ?m demoDeployed = Inl InvalidBatchOperation"
    using first shut0 by blast
  have c: "openBatch plainFHE ?m' demoOpened = Inl InvalidBatchOperation"
    using second open1 by blast
  have d: "\<exists>s'. closeBatch plainFHE ?m' demoOpened = Inr s'
          \<and> \<not> batchOpen s' \<and> currentBatchId s' = 1
          \<and> isProtocolSolvent s' 1 = fhe_ge plainFHE (asEuint32 plainFHE 0) (asEuint32 plainFHE 0)"
    using second open1 init by (simp add: cur1 tot1)
  from a b c d show ?thesis by blast
qed

subsection \<open>Pause\<close>

text \<open>
  Claim C9, as stated, fails: the role modifier runs before \<open>whenNotPaused\<close>, so while
  the contract is paused a caller without the role gets \<open>NotProvider\<close> or \<open>NotOwner\<close>,
  not \<open>PausedState\<close>.
\<close>

theorem paused_blocks_counterexample:
  "paused demoPaused
   \<and> submitCollateral plainFHE \<lparr>sender = 2, timestamp = 200\<rparr> 1 6 demoPaused = Inl NotProvider
   \<and> openBatch plainFHE \<lparr>sender = 2, timestamp = 200\<rparr> demoPaused = Inl NotOwner"
  by (simp add: demo_defs eval_defs)

text \<open>
  Claim C9, amended. While the contract is paused, \<open>submitCollateral\<close>, \<open>submitDebt\<close>,
  \<open>calculateSolvency\<close>, \<open>requestSolvencyDecryption\<close>, \<open>openBatch\<close> and \<open>closeBatch\<close> all
  revert, so none changes the storage: with \<open>PausedState\<close> when the caller has the role
  the function asks for, with \<open>NotProvider\<close> or \<open>NotOwner\<close> otherwise. \<open>unpause\<close> called
  by the owner clears \<open>paused\<close> and logs \<open>Unpaused\<close>; every other field of the storage is
  the one before. Called by anyone else it reverts.
\<close>

theorem paused_blocks:
  assumes "paused s"
  shows "submitCollateral F m b v s = Inl (if isProvider s (sender m) then PausedState else NotProvider)
       \<and> submitDebt F m b v s = Inl (if isProvider s (sender m) then PausedState else NotProvider)
       \<and> calculateSolvency F m b s = Inl (if isProvider s (sender m) then PausedState else NotProvider)
       \<and> requestSolvencyDecryption F m b r s
            = Inl (if isProvider s (sender m) then PausedState else NotProvider)
       \<and> openBatch F m s = Inl (if sender m = owner s then PausedState else NotOwner)
       \<and> closeBatch F m s = Inl (if sender m = owner s then PausedState else NotOwner)
       \<and> unpause m s =
           (if sender m = owner s
            then Inr (s\<lparr>paused := False, events := events s @ [Unpaused (sender m)]\<rparr>)
            else Inl NotOwner)"
  using assms
  by (simp add: submitCollateral_def submitDebt_def calculateSolvency_def
        requestSolvencyDecryption_def openBatch_def closeBatch_def unpause_def
        guarded_def onlyOwner_def onlyProvider_def whenNotPaused_def)

theorem paused_blocks_witness:
  "paused demoPaused
   \<and> submitCollateral plainFHE \<lparr>sender = 1, timestamp = 200\<rparr> 1 6 demoPaused = Inl PausedState
   \<and> submitDebt plainFHE \<lparr>sender = 1, timestamp = 200\<rparr> 1 6 demoPaused = Inl PausedState
   \<and> calculateSolvency plainFHE \<lparr>sender = 1, timestamp = 200\<rparr> 1 demoPaused = Inl PausedState
   \<and> requestSolvencyDecryption plainFHE \<lparr>sender = 1, timestamp = 200\<rparr> 1 7 demoPaused
        = Inl PausedState
   \<and> openBatch plainFHE \<lparr>sender = 1, timestamp = 200\<rparr> demoPaused = Inl PausedState
   \<and> closeBatch plainFHE \<lparr>sender = 1, timestamp = 200\<rparr> demoPaused = Inl PausedState
   \<and> unpause \<lparr>sender = 1, timestamp = 200\<rparr> demoPaused
        = Inr (demoPaused\<lparr>paused := False, events := events demoPaused @ [Unpaused 1]\<rparr>)"
proof -
  let ?m = "\<lparr>sender = 1, timestamp = 200\<rparr> :: msg"
  have stopped: "paused demoPaused" and role: "isProvider demoPaused (sender ?m)"
    and own: "sender ?m = owner demoPaused"
    by (simp_all add: demo_defs eval_defs)
  from paused_blocks [OF stopped, of plainFHE ?m 1 6 7] role own stopped
  show ?thesis by simp
qed

subsection \<open>The callback is open to every caller\<close>

text \<open>
  Claim C10. \<open>myCallback\<close> with the same request identifier, cleartexts and proof gives
  the same result for every caller and every block time. It reads neither the owner,
  the provider set, the pause flag nor the cooldown records: with these fields changed
  the outcome is the same error, or the same new storage with these fields changed.
\<close>

theorem callback_ignores_caller:
  "step F (m, MyCallback r c p) s = step F (m', MyCallback r c p) s
   \<and> myCallback F m r c p
       (s\<lparr>owner := ow, isProvider := pr, paused := pa, cooldownSeconds := cd,
          lastSubmissionTime := ls, lastDecryptionRequestTime := ld\<rparr>)
     = map_sum id
         (\<lambda>s'. s'\<lparr>owner := ow, isProvider := pr, paused := pa, cooldownSeconds := cd,
                   lastSubmissionTime := ls, lastDecryptionRequestTime := ld\<rparr>)
         (myCallback F m' r c p s)"
  by (simp add: myCallback_def Let_def)

theorem callback_ignores_caller_witness:
  "step plainFHE (\<lparr>sender = 9, timestamp = 300\<rparr>, MyCallback 7 [1] []) demoRequested
     = step plainFHE (\<lparr>sender = 1, timestamp = 999\<rparr>, MyCallback 7 [1] []) demoRequested"
  using callback_ignores_caller
    [of plainFHE "\<lparr>sender = 9, timestamp = 300\<rparr>" 7 "[1]" "[]" demoRequested
        "\<lparr>sender = 1, timestamp = 999\<rparr>"]
  by blast


subsection \<open>Cooldown of submissions\<close>

lemma cooldown_verdict:
  assumes "submission c" and "isProvider s (sender m)" and "\<not> paused s"
    and "unat (lastSubmissionTime s (sender m)) + unat (cooldownSeconds s) < 2 ^ 256"
  shows "step F (m, c) s = Inl CooldownActive
         \<longleftrightarrow> timestamp m < lastSubmissionTime s (sender m) + cooldownSeconds s"
  using assms
  by (cases c)
     (auto simp: submitCollateral_def submitDebt_def modifier_defs checked_add_def)

lemma submission_records_time:
  assumes "submission c" and "step F (m, c) s = Inr s'"
  shows "lastSubmissionTime s' = (lastSubmissionTime s)(sender m := timestamp m)
       \<and> cooldownSeconds s' = cooldownSeconds s \<and> isProvider s' = isProvider s
       \<and> paused s' = paused s"
  using assms
  by (cases c)
     (auto simp: submitCollateral_def submitDebt_def modifier_defs
           split: if_splits option.splits)

lemma setCooldownSeconds_effect:
  assumes "setCooldownSeconds mo n s = Inr s'"
  shows "cooldownSeconds s' = n \<and> lastSubmissionTime s' = lastSubmissionTime s
       \<and> isProvider s' = isProvider s \<and> paused s' = paused s"
  using assms
  by (auto simp: setCooldownSeconds_def modifier_defs Let_def split: if_splits)

text \<open>
  Claim C8, as stated, fails. An address that never submitted has the recorded time 0,
  so with cooldown 60 its submission at time 0 reverts with \<open>CooldownActive\<close>: of two
  otherwise valid submissions at times 0 and 61 the first fails. And for an address
  without the provider role a submission inside the window reverts with \<open>NotProvider\<close>,
  not with \<open>CooldownActive\<close>.
\<close>

theorem submission_cooldown_counterexample:
  "cooldownSeconds demoOpenedEarly = 60 \<and> isProvider demoOpenedEarly 1
   \<and> \<not> paused demoOpenedEarly \<and> isValidBatch demoOpenedEarly 1
   \<and> submitCollateral plainFHE \<lparr>sender = 1, timestamp = 0\<rparr> 1 6 demoOpenedEarly
        = Inl CooldownActive
   \<and> (10 :: uint256) < lastSubmissionTime demoOpenedEarly 2 + cooldownSeconds demoOpenedEarly
   \<and> submitCollateral plainFHE \<lparr>sender = 2, timestamp = 10\<rparr> 1 6 demoOpenedEarly
        = Inl NotProvider"
  by (simp add: demo_defs eval_defs)

text \<open>
  Claim C8, amended. For a provider, while the contract is not paused and the sum of
  the recorded time and \<open>cooldownSeconds\<close> fits \<^verbatim>\<open>uint256\<close>, a submission at time \<open>now\<close>
  reverts with \<open>CooldownActive\<close> exactly when \<open>now\<close> is below recorded time plus
  \<open>cooldownSeconds\<close>; outside the window a submission of an initialized ciphertext into
  a valid batch succeeds. A successful submission records \<open>now\<close> for the sender, so the
  next submission of the same address reverts with \<open>CooldownActive\<close> exactly when it
  comes before \<open>now\<close> plus \<open>cooldownSeconds\<close>. After \<open>setCooldownSeconds n\<close> the check
  uses \<open>n\<close>.
\<close>

theorem submission_cooldown:
  assumes sub: "submission c" and role: "isProvider s (sender m)" and unpaused: "\<not> paused s"
    and fits: "unat (lastSubmissionTime s (sender m)) + unat (cooldownSeconds s) < 2 ^ 256"
  shows "(step F (m, c) s = Inl CooldownActive
            \<longleftrightarrow> timestamp m < lastSubmissionTime s (sender m) + cooldownSeconds s)
       \<and> (\<forall>b v. (c = SubmitCollateral b v \<or> c = SubmitDebt b v)
             \<and> \<not> timestamp m < lastSubmissionTime s (sender m) + cooldownSeconds s
             \<and> isValidBatch s b \<and> isInitialized F v \<longrightarrow>
             (\<exists>s'. step F (m, c) s = Inr s'))
       \<and> (\<forall>s'. step F (m, c) s = Inr s' \<longrightarrow>
             lastSubmissionTime s' = (lastSubmissionTime s)(sender m := timestamp m)
           \<and> (\<forall>m2 c2. submission c2 \<and> sender m2 = sender m
                 \<and> unat (timestamp m) + unat (cooldownSeconds s) < 2 ^ 256 \<longrightarrow>
                 (step F (m2, c2) s' = Inl CooldownActive
                    \<longleftrightarrow> timestamp m2 < timestamp m + cooldownSeconds s)))
       \<and> (\<forall>mo n s'. setCooldownSeconds mo n s = Inr s'
             \<and> unat (lastSubmissionTime s (sender m)) + unat n < 2 ^ 256 \<longrightarrow>
             (step F (m, c) s' = Inl CooldownActive
                \<longleftrightarrow> timestamp m < lastSubmissionTime s (sender m) + n))"
proof (intro conjI allI impI)
  show "step F (m, c) s = Inl CooldownActive
        \<longleftrightarrow> timestamp m < lastSubmissionTime s (sender m) + cooldownSeconds s"
    using sub role unpaused fits by (rule cooldown_verdict)
next
  fix b v
  assume "(c = SubmitCollateral b v \<or> c = SubmitDebt b v)
       \<and> \<not> timestamp m < lastSubmissionTime s (sender m) + cooldownSeconds s
       \<and> isValidBatch s b \<and> isInitialized F v"
  with role unpaused fits show "\<exists>s'. step F (m, c) s = Inr s'"
    by (auto simp: submitCollateral_def submitDebt_def modifier_defs checked_add_def)
next
  fix s' assume "step F (m, c) s = Inr s'"
  with sub show "lastSubmissionTime s' = (lastSubmissionTime s)(sender m := timestamp m)"
    using submission_records_time by blast
next
  fix s' and m2 :: msg and c2
  assume ok: "step F (m, c) s = Inr s'"
    and second: "submission c2 \<and> sender m2 = sender m
       \<and> unat (timestamp m) + unat (cooldownSeconds s) < 2 ^ 256"
  from sub ok have rec: "lastSubmissionTime s' = (lastSubmissionTime s)(sender m := timestamp m)"
      "cooldownSeconds s' = cooldownSeconds s" "isProvider s' = isProvider s"
      "paused s' = paused s"
    using submission_records_time by blast+
  from second rec role unpaused
  have "step F (m2, c2) s' = Inl CooldownActive
        \<longleftrightarrow> timestamp m2 < lastSubmissionTime s' (sender m2) + cooldownSeconds s'"
    by (intro cooldown_verdict) simp_all
  with rec second
  show "step F (m2, c2) s' = Inl CooldownActive
        \<longleftrightarrow> timestamp m2 < timestamp m + cooldownSeconds s"
    by simp
next
  fix mo n s'
  assume chg: "setCooldownSeconds mo n s = Inr s'
       \<and> unat (lastSubmissionTime s (sender m)) + unat n < 2 ^ 256"
  then have eff: "cooldownSeconds s' = n" "lastSubmissionTime s' = lastSubmissionTime s"
      "isProvider s' = isProvider s" "paused s' = paused s"
    using setCooldownSeconds_effect by blast+
  from sub eff role unpaused chg
  have "step F (m, c) s' = Inl CooldownActive
        \<longleftrightarrow> timestamp m < lastSubmissionTime s' (sender m) + cooldownSeconds s'"
    by (intro cooldown_verdict) simp_all
  with eff show "step F (m, c) s' = Inl CooldownActive
        \<longleftrightarrow> timestamp m < lastSubmissionTime s (sender m) + n"
    by simp
qed

theorem submission_cooldown_witness:
  "cooldownSeconds demoOpened = 60
   \<and> step plainFHE (\<lparr>sender = 1, timestamp = 100\<rparr>, SubmitCollateral 1 6) demoOpened
        = Inr demoSubmitted
   \<and> lastSubmissionTime demoSubmitted 1 = 100
   \<and> step plainFHE (\<lparr>sender = 1, timestamp = 130\<rparr>, SubmitDebt 1 6) demoSubmitted
        = Inl CooldownActive
   \<and> (\<exists>s2. step plainFHE (\<lparr>sender = 1, timestamp = 161\<rparr>, SubmitDebt 1 6) demoSubmitted = Inr s2)
   \<and> (\<exists>s2. setCooldownSeconds \<lparr>sender = 1, timestamp = 120\<rparr> 10 demoSubmitted = Inr s2
          \<and> step plainFHE (\<lparr>sender = 1, timestamp = 130\<rparr>, SubmitDebt 1 6) s2
               \<noteq> Inl CooldownActive)"
proof -
  let ?m1 = "\<lparr>sender = 1, timestamp = 100\<rparr> :: msg"
  let ?m2 = "\<lparr>sender = 1, timestamp = 130\<rparr> :: msg"
  let ?m3 = "\<lparr>sender = 1, timestamp = 161\<rparr> :: msg"
  let ?mo = "\<lparr>sender = 1, timestamp = 120\<rparr> :: msg"
  let ?c1 = "SubmitCollateral 1 6"
  let ?c2 = "SubmitDebt 1 6"
  have sub1: "submission ?c1" and sub2: "submission ?c2"
    by simp_all
  have cd: "cooldownSeconds demoOpened = 60" and last0: "lastSubmissionTime demoOpened 1 = 0"
    and role0: "isProvider demoOpened (sender ?m1)" and run0: "\<not> paused demoOpened"
    by (simp_all add: demo_defs eval_defs)
  have fits0: "unat (lastSubmissionTime demoOpened (sender ?m1))
      + unat (cooldownSeconds demoOpened) < 2 ^ 256"
    by (simp add: cd last0)
  have first: "step plainFHE (?m1, ?c1) demoOpened = Inr demoSubmitted"
    by (simp add: demo_defs eval_defs)
  note one = submission_cooldown [OF sub1 role0 run0 fits0, where F = plainFHE]
  from one first
  have rec: "lastSubmissionTime demoSubmitted
      = (lastSubmissionTime demoOpened)(sender ?m1 := timestamp ?m1)"
    by blast
  then have last1: "lastSubmissionTime demoSubmitted 1 = 100"
    by simp
  from one first
  have "submission ?c2 \<and> sender ?m2 = sender ?m1
      \<and> unat (timestamp ?m1) + unat (cooldownSeconds demoOpened) < 2 ^ 256 \<longrightarrow>
      (step plainFHE (?m2, ?c2) demoSubmitted = Inl CooldownActive
         \<longleftrightarrow> timestamp ?m2 < timestamp ?m1 + cooldownSeconds demoOpened)"
    by blast
  then have second: "step plainFHE (?m2, ?c2) demoSubmitted = Inl CooldownActive"
    by (simp add: cd)
  have cd1: "cooldownSeconds demoSubmitted = 60"
    and role1: "isProvider demoSubmitted (sender ?m3)" and run1: "\<not> paused demoSubmitted"
    and valid1: "isValidBatch demoSubmitted 1" and init: "isInitialized plainFHE 6"
    by (simp_all add: demo_defs eval_defs)
  have fits1: "unat (lastSubmissionTime demoSubmitted (sender ?m3))
      + unat (cooldownSeconds demoSubmitted) < 2 ^ 256"
    by (simp add: cd1 last1)
  have late: "\<not> timestamp ?m3 < lastSubmissionTime demoSubmitted (sender ?m3)
      + cooldownSeconds demoSubmitted"
    by (simp add: cd1 last1)
  note two = submission_cooldown [OF sub2 role1 run1 fits1, where F = plainFHE]
  from two valid1 init late
  have third: "\<exists>s2. step plainFHE (?m3, ?c2) demoSubmitted = Inr s2"
    by blast
  have role2: "isProvider demoSubmitted (sender ?m2)"
    by (simp add: demo_defs eval_defs)
  have fits2: "unat (lastSubmissionTime demoSubmitted (sender ?m2))
      + unat (cooldownSeconds demoSubmitted) < 2 ^ 256"
    by (simp add: cd1 last1)
  note three = submission_cooldown [OF sub2 role2 run1 fits2, where F = plainFHE]
  obtain s2 where chg: "setCooldownSeconds ?mo 10 demoSubmitted = Inr s2"
    by (simp add: setCooldownSeconds_def modifier_defs demo_defs eval_defs)
  have fits3: "unat (lastSubmissionTime demoSubmitted (sender ?m2)) + unat (10 :: uint256) < 2 ^ 256"
    by (simp add: last1)
  from three chg fits3
  have "step plainFHE (?m2, ?c2) s2 = Inl CooldownActive
      \<longleftrightarrow> timestamp ?m2 < lastSubmissionTime demoSubmitted (sender ?m2) + 10"
    by blast
  then have "step plainFHE (?m2, ?c2) s2 \<noteq> Inl CooldownActive"
    by (simp add: last1)
  with chg have fourth: "\<exists>s2. setCooldownSeconds ?mo 10 demoSubmitted = Inr s2
      \<and> step plainFHE (?m2, ?c2) s2 \<noteq> Inl CooldownActive"
    by blast
  from cd first last1 second third fourth show ?thesis by blast
qed


subsection \<open>The plaintext instance is homomorphic\<close>

lemma take_bit_down_add:
  "take_bit 32 (take_bit 256 x + take_bit 256 y) = take_bit 32 (x + y :: int)"
proof -
  have "take_bit 32 (take_bit 256 (take_bit 256 x + take_bit 256 y))
      = take_bit 32 (take_bit 256 (x + y))"
    by (simp only: take_bit_add)
  then show ?thesis by simp
qed

lemma take_bit_down_diff:
  "take_bit 32 (take_bit 256 x - take_bit 256 y) = take_bit 32 (x - y :: int)"
proof -
  have "take_bit 32 (take_bit 256 (take_bit 256 x - take_bit 256 y))
      = take_bit 32 (take_bit 256 (x - y))"
    by (simp only: take_bit_diff)
  then show ?thesis by simp
qed

lemma ucast_down_add: "(ucast (x + y :: 256 word) :: 32 word) = ucast x + ucast y"
  by transfer (simp add: take_bit_down_add)

lemma ucast_down_diff: "(ucast (x - y :: 256 word) :: 32 word) = ucast x - ucast y"
  by transfer (simp add: take_bit_down_diff)

lemma plain_add: "plain_dec32 (fhe_add plainFHE x y) = plain_dec32 x + plain_dec32 y"
  by (simp add: plainFHE_def plain_dec32_def ucast_down_add ucast_down_diff)

lemma plain_zero: "plain_dec32 (asEuint32 plainFHE 0) = 0"
  by (simp add: plainFHE_def plain_dec32_def)

lemma plain_ge: "plain_decb (fhe_ge plainFHE x y) = (plain_dec32 y \<le> plain_dec32 x)"
  by (simp add: plainFHE_def plain_dec32_def plain_decb_def)

subsection \<open>Running totals\<close>

lemma word_succ_above:
  "(a :: uint256) \<noteq> - 1 \<Longrightarrow> b \<le> a \<Longrightarrow> b \<noteq> a + 1 \<and> b \<le> a + 1"
  by (meson inc_less_eq_triv_imp nle_le order.trans)

lemma step_totals:
  assumes "step F (m, c) s = Inr s'" and "b \<le> currentBatchId s"
  shows "totalEncryptedCollateral s' b
           = foldl (fhe_add F) (totalEncryptedCollateral s b) (collateralOf b c)
       \<and> totalEncryptedDebt s' b = foldl (fhe_add F) (totalEncryptedDebt s b) (debtOf b c)
       \<and> b \<le> currentBatchId s'"
  using assms
  by (cases c)
     (auto simp: function_defs modifier_defs Let_def checked_add_one
           dest: word_succ_above split: if_splits option.splits sum.splits)

lemma run_totals:
  assumes "b \<le> currentBatchId s"
  shows "totalEncryptedCollateral (run F s cs) b
           = foldl (fhe_add F) (totalEncryptedCollateral s b) (acceptedCollateral F b s cs)
       \<and> totalEncryptedDebt (run F s cs) b
           = foldl (fhe_add F) (totalEncryptedDebt s b) (acceptedDebt F b s cs)"
  using assms
proof (induction cs arbitrary: s)
  case Nil
  then show ?case by simp
next
  case (Cons x cs)
  obtain m c where x: "x = (m, c)" by (cases x)
  show ?case
  proof (cases "step F x s")
    case (Inl e)
    with Cons show ?thesis by simp
  next
    case (Inr s')
    with x Cons.prems have one: "totalEncryptedCollateral s' b
           = foldl (fhe_add F) (totalEncryptedCollateral s b) (collateralOf b c)"
       "totalEncryptedDebt s' b = foldl (fhe_add F) (totalEncryptedDebt s b) (debtOf b c)"
       "b \<le> currentBatchId s'"
      using step_totals by blast+
    from Cons.IH [OF one(3)] one(1,2) Inr x show ?thesis by simp
  qed
qed

lemma foldl_add_decoded:
  fixes dec :: "euint32 \<Rightarrow> 32 word"
  assumes "\<forall>x y. dec (fhe_add F x y) = dec x + dec y"
  shows "dec (foldl (fhe_add F) t vs) = dec t + sum_list (map dec vs)"
  using assms by (induction vs arbitrary: t) (simp_all add: add.assoc)

lemma openBatch_result:
  assumes "openBatch F m s0 = Inr s1"
  shows "totalEncryptedCollateral s1 (currentBatchId s1) = asEuint32 F 0
       \<and> totalEncryptedDebt s1 (currentBatchId s1) = asEuint32 F 0"
  using assms
  by (auto simp: openBatch_def modifier_defs split: if_splits option.splits)

text \<open>
  Claim C5. \<open>dec\<close> reads the 32-bit plaintext of a ciphertext; the FHE addition is
  homomorphic for it and the encryption of zero decodes to 0. From the state in which
  \<open>openBatch\<close> has just created a batch, after every run of transactions the collateral
  total of that batch is the FHE sum, starting from the encryption of zero, of the
  collateral ciphertexts the run accepted for the batch, resubmissions of one address
  included, and it decodes to the sum of their plaintexts; likewise the debt total.
  Two runs that accept the same submissions in a different order end with totals that
  decode to the same value.
\<close>

theorem totals_are_homomorphic_sums:
  fixes dec :: "euint32 \<Rightarrow> 32 word"
  assumes hom: "\<forall>x y. dec (fhe_add F x y) = dec x + dec y"
    and zero: "dec (asEuint32 F 0) = 0"
    and opened: "openBatch F m s0 = Inr s1"
  shows "totalEncryptedCollateral (run F s1 cs) (currentBatchId s1)
           = foldl (fhe_add F) (asEuint32 F 0) (acceptedCollateral F (currentBatchId s1) s1 cs)
       \<and> totalEncryptedDebt (run F s1 cs) (currentBatchId s1)
           = foldl (fhe_add F) (asEuint32 F 0) (acceptedDebt F (currentBatchId s1) s1 cs)
       \<and> dec (totalEncryptedCollateral (run F s1 cs) (currentBatchId s1))
           = sum_list (map dec (acceptedCollateral F (currentBatchId s1) s1 cs))
       \<and> dec (totalEncryptedDebt (run F s1 cs) (currentBatchId s1))
           = sum_list (map dec (acceptedDebt F (currentBatchId s1) s1 cs))
       \<and> (\<forall>cs'. mset (acceptedCollateral F (currentBatchId s1) s1 cs')
                  = mset (acceptedCollateral F (currentBatchId s1) s1 cs) \<longrightarrow>
              dec (totalEncryptedCollateral (run F s1 cs') (currentBatchId s1))
                = dec (totalEncryptedCollateral (run F s1 cs) (currentBatchId s1)))
       \<and> (\<forall>cs'. mset (acceptedDebt F (currentBatchId s1) s1 cs')
                  = mset (acceptedDebt F (currentBatchId s1) s1 cs) \<longrightarrow>
              dec (totalEncryptedDebt (run F s1 cs') (currentBatchId s1))
                = dec (totalEncryptedDebt (run F s1 cs) (currentBatchId s1)))"
proof -
  let ?b = "currentBatchId s1"
  have handles: "totalEncryptedCollateral (run F s1 xs) ?b
           = foldl (fhe_add F) (asEuint32 F 0) (acceptedCollateral F ?b s1 xs)"
      "totalEncryptedDebt (run F s1 xs) ?b
           = foldl (fhe_add F) (asEuint32 F 0) (acceptedDebt F ?b s1 xs)" for xs
    using run_totals [of ?b s1 F xs] openBatch_result [OF opened] by simp_all
  have decoded: "dec (totalEncryptedCollateral (run F s1 xs) ?b)
           = sum_list (map dec (acceptedCollateral F ?b s1 xs))"
      "dec (totalEncryptedDebt (run F s1 xs) ?b)
           = sum_list (map dec (acceptedDebt F ?b s1 xs))" for xs
    by (simp_all add: handles foldl_add_decoded [OF hom] zero)
  have perm: "sum_list (map dec xs) = sum_list (map dec ys)" if "mset xs = mset ys"
    for xs ys :: "euint32 list"
  proof -
    have "sum_mset (image_mset dec (mset xs)) = sum_mset (image_mset dec (mset ys))"
      using that by simp
    then show ?thesis by (simp add: sum_mset_sum_list flip: mset_map)
  qed
  show ?thesis
    using handles decoded perm by metis
qed

theorem totals_are_homomorphic_sums_witness:
  "acceptedCollateral plainFHE 1 demoOpened
     [(\<lparr>sender = 1, timestamp = 100\<rparr>, SubmitCollateral 1 11),
      (\<lparr>sender = 1, timestamp = 200\<rparr>, SubmitCollateral 1 21),
      (\<lparr>sender = 1, timestamp = 210\<rparr>, SubmitCollateral 1 31),
      (\<lparr>sender = 1, timestamp = 300\<rparr>, SubmitDebt 1 6)] = [11, 21]
   \<and> acceptedCollateral plainFHE 1 demoOpened
     [(\<lparr>sender = 1, timestamp = 100\<rparr>, SubmitCollateral 1 21),
      (\<lparr>sender = 1, timestamp = 200\<rparr>, SubmitDebt 1 6),
      (\<lparr>sender = 1, timestamp = 300\<rparr>, SubmitCollateral 1 11)] = [21, 11]
   \<and> plain_dec32 (totalEncryptedCollateral (run plainFHE demoOpened
     [(\<lparr>sender = 1, timestamp = 100\<rparr>, SubmitCollateral 1 11),
      (\<lparr>sender = 1, timestamp = 200\<rparr>, SubmitCollateral 1 21),
      (\<lparr>sender = 1, timestamp = 210\<rparr>, SubmitCollateral 1 31),
      (\<lparr>sender = 1, timestamp = 300\<rparr>, SubmitDebt 1 6)]) 1) = 30
   \<and> plain_dec32 (totalEncryptedCollateral (run plainFHE demoOpened
     [(\<lparr>sender = 1, timestamp = 100\<rparr>, SubmitCollateral 1 21),
      (\<lparr>sender = 1, timestamp = 200\<rparr>, SubmitDebt 1 6),
      (\<lparr>sender = 1, timestamp = 300\<rparr>, SubmitCollateral 1 11)]) 1) = 30
   \<and> plain_dec32 (totalEncryptedDebt (run plainFHE demoOpened
     [(\<lparr>sender = 1, timestamp = 100\<rparr>, SubmitCollateral 1 11),
      (\<lparr>sender = 1, timestamp = 200\<rparr>, SubmitCollateral 1 21),
      (\<lparr>sender = 1, timestamp = 210\<rparr>, SubmitCollateral 1 31),
      (\<lparr>sender = 1, timestamp = 300\<rparr>, SubmitDebt 1 6)]) 1) = 5"
proof -
  let ?cs = "[(\<lparr>sender = 1, timestamp = 100\<rparr>, SubmitCollateral 1 11),
      (\<lparr>sender = 1, timestamp = 200\<rparr>, SubmitCollateral 1 21),
      (\<lparr>sender = 1, timestamp = 210\<rparr>, SubmitCollateral 1 31),
      (\<lparr>sender = 1, timestamp = 300\<rparr>, SubmitDebt 1 6)]"
  let ?cs' = "[(\<lparr>sender = 1, timestamp = 100\<rparr>, SubmitCollateral 1 21),
      (\<lparr>sender = 1, timestamp = 200\<rparr>, SubmitDebt 1 6),
      (\<lparr>sender = 1, timestamp = 300\<rparr>, SubmitCollateral 1 11)]"
  have hom: "\<forall>x y. plain_dec32 (fhe_add plainFHE x y) = plain_dec32 x + plain_dec32 y"
    by (simp add: plain_add)
  have opened: "openBatch plainFHE \<lparr>sender = 1, timestamp = 100\<rparr> demoDeployed = Inr demoOpened"
    by (simp add: demo_defs eval_defs)
  have cur: "currentBatchId demoOpened = 1"
    by (simp add: demo_defs eval_defs)
  have acc: "acceptedCollateral plainFHE 1 demoOpened ?cs = [11, 21]"
    by (simp add: demo_defs eval_defs)
  have acc': "acceptedCollateral plainFHE 1 demoOpened ?cs' = [21, 11]"
    by (simp add: demo_defs eval_defs)
  have deb: "acceptedDebt plainFHE 1 demoOpened ?cs = [6]"
    by (simp add: demo_defs eval_defs)
  note sums = totals_are_homomorphic_sums [OF hom plain_zero opened, unfolded cur]
  have v: "sum_list (map plain_dec32 [11, 21]) = 30" "sum_list (map plain_dec32 [21, 11]) = 30"
      "sum_list (map plain_dec32 [6]) = 5"
    by (simp_all add: plain_dec32_def)
  have "plain_dec32 (totalEncryptedCollateral (run plainFHE demoOpened ?cs) 1)
      = sum_list (map plain_dec32 (acceptedCollateral plainFHE 1 demoOpened ?cs))"
    using sums [of ?cs] by blast
  then have a: "plain_dec32 (totalEncryptedCollateral (run plainFHE demoOpened ?cs) 1) = 30"
    unfolding acc v .
  have "plain_dec32 (totalEncryptedCollateral (run plainFHE demoOpened ?cs') 1)
      = sum_list (map plain_dec32 (acceptedCollateral plainFHE 1 demoOpened ?cs'))"
    using sums [of ?cs'] by blast
  then have b: "plain_dec32 (totalEncryptedCollateral (run plainFHE demoOpened ?cs') 1) = 30"
    unfolding acc' v .
  have "plain_dec32 (totalEncryptedDebt (run plainFHE demoOpened ?cs) 1)
      = sum_list (map plain_dec32 (acceptedDebt plainFHE 1 demoOpened ?cs))"
    using sums [of ?cs] by blast
  then have c: "plain_dec32 (totalEncryptedDebt (run plainFHE demoOpened ?cs) 1) = 5"
    unfolding deb v .
  from acc acc' a b c show ?thesis by blast
qed

subsection \<open>The solvency flag\<close>

lemma calculateSolvency_internal_result:
  assumes "calculateSolvency_internal F b s = Inr s'"
  shows "isProtocolSolvent s' = (isProtocolSolvent s)
           (b := fhe_ge F (totalEncryptedCollateral s b) (totalEncryptedDebt s b))
       \<and> totalEncryptedCollateral s' = totalEncryptedCollateral s
       \<and> totalEncryptedDebt s' = totalEncryptedDebt s"
  using assms
  by (auto simp: calculateSolvency_internal_def modifier_defs Let_def split: if_splits)

text \<open>
  Claim C6. \<open>dec\<close> and \<open>decb\<close> read the plaintexts, and the FHE comparison is
  homomorphic: \<open>fhe_ge x y\<close> decodes to \<open>dec x \<ge> dec y\<close>. A successful
  \<open>calculateSolvency\<close> is for a valid batch and overwrites the flag of that batch with the
  comparison of its two totals as they are at the call, so the flag decodes to
  collateral \<open>\<ge>\<close> debt; the totals and the other flags stay. \<open>closeBatch\<close> does the same
  for the current batch. The flag is a snapshot: a later submission changes a total
  and leaves every flag as it is.
\<close>

theorem solvency_flag_compares_totals:
  fixes dec :: "euint32 \<Rightarrow> 32 word" and decb :: "ebool \<Rightarrow> bool"
  assumes ge: "\<forall>x y. decb (fhe_ge F x y) = (dec y \<le> dec x)"
  shows "(calculateSolvency F m b s = Inr s' \<longrightarrow>
            isValidBatch s b
          \<and> isProtocolSolvent s' = (isProtocolSolvent s)
               (b := fhe_ge F (totalEncryptedCollateral s b) (totalEncryptedDebt s b))
          \<and> decb (isProtocolSolvent s' b)
               = (dec (totalEncryptedDebt s b) \<le> dec (totalEncryptedCollateral s b))
          \<and> totalEncryptedCollateral s' = totalEncryptedCollateral s
          \<and> totalEncryptedDebt s' = totalEncryptedDebt s)
       \<and> (closeBatch F m s = Inr s' \<longrightarrow>
            isProtocolSolvent s' = (isProtocolSolvent s)
               (currentBatchId s :=
                  fhe_ge F (totalEncryptedCollateral s (currentBatchId s))
                           (totalEncryptedDebt s (currentBatchId s)))
          \<and> decb (isProtocolSolvent s' (currentBatchId s))
               = (dec (totalEncryptedDebt s (currentBatchId s))
                    \<le> dec (totalEncryptedCollateral s (currentBatchId s)))
          \<and> totalEncryptedCollateral s' = totalEncryptedCollateral s
          \<and> totalEncryptedDebt s' = totalEncryptedDebt s)
       \<and> (submitCollateral F m b v s = Inr s' \<or> submitDebt F m b v s = Inr s' \<longrightarrow>
            isProtocolSolvent s' = isProtocolSolvent s)"
proof (intro conjI impI)
  assume ok: "calculateSolvency F m b s = Inr s'"
  then have valid: "isValidBatch s b" and inner: "calculateSolvency_internal F b s = Inr s'"
    by (auto simp: calculateSolvency_def modifier_defs split: if_splits option.splits)
  note res = calculateSolvency_internal_result [OF inner]
  from valid show "isValidBatch s b" .
  from res show "isProtocolSolvent s' = (isProtocolSolvent s)
       (b := fhe_ge F (totalEncryptedCollateral s b) (totalEncryptedDebt s b))"
    by simp
  from res ge show "decb (isProtocolSolvent s' b)
       = (dec (totalEncryptedDebt s b) \<le> dec (totalEncryptedCollateral s b))"
    by simp
  from res show "totalEncryptedCollateral s' = totalEncryptedCollateral s"
    and "totalEncryptedDebt s' = totalEncryptedDebt s"
    by simp_all
next
  assume ok: "closeBatch F m s = Inr s'"
  then obtain s2 where inner:
      "calculateSolvency_internal F (currentBatchId s) (s\<lparr>batchOpen := False\<rparr>) = Inr s2"
    and fin: "s' = s2\<lparr>events := events s2 @ [BatchClosed (currentBatchId s2)]\<rparr>"
    by (auto simp: closeBatch_def modifier_defs split: if_splits option.splits sum.splits)
  note res = calculateSolvency_internal_result [OF inner]
  from res fin show "isProtocolSolvent s' = (isProtocolSolvent s)
       (currentBatchId s :=
          fhe_ge F (totalEncryptedCollateral s (currentBatchId s))
                   (totalEncryptedDebt s (currentBatchId s)))"
    by simp
  from res fin ge show "decb (isProtocolSolvent s' (currentBatchId s))
       = (dec (totalEncryptedDebt s (currentBatchId s))
            \<le> dec (totalEncryptedCollateral s (currentBatchId s)))"
    by simp
  from res fin show "totalEncryptedCollateral s' = totalEncryptedCollateral s"
    and "totalEncryptedDebt s' = totalEncryptedDebt s"
    by simp_all
next
  assume "submitCollateral F m b v s = Inr s' \<or> submitDebt F m b v s = Inr s'"
  then show "isProtocolSolvent s' = isProtocolSolvent s"
    by (auto simp: submitCollateral_def submitDebt_def modifier_defs
             split: if_splits option.splits)
qed

theorem solvency_flag_compares_totals_witness:
  "plain_dec32 (totalEncryptedCollateral demoC100D80 1) = 100
   \<and> plain_dec32 (totalEncryptedDebt demoC100D80 1) = 80
   \<and> (\<exists>s'. calculateSolvency plainFHE \<lparr>sender = 1, timestamp = 300\<rparr> 1 demoC100D80 = Inr s'
          \<and> plain_decb (isProtocolSolvent s' 1))
   \<and> plain_dec32 (totalEncryptedCollateral demoC50D80 1) = 50
   \<and> plain_dec32 (totalEncryptedDebt demoC50D80 1) = 80
   \<and> (\<exists>s'. closeBatch plainFHE \<lparr>sender = 1, timestamp = 300\<rparr> demoC50D80 = Inr s'
          \<and> \<not> plain_decb (isProtocolSolvent s' 1))"
proof -
  let ?m = "\<lparr>sender = 1, timestamp = 300\<rparr> :: msg"
  have ge: "\<forall>x y. plain_decb (fhe_ge plainFHE x y) = (plain_dec32 y \<le> plain_dec32 x)"
    by (simp add: plain_ge)
  have c1: "plain_dec32 (totalEncryptedCollateral demoC100D80 1) = 100"
    and d1: "plain_dec32 (totalEncryptedDebt demoC100D80 1) = 80"
    by (simp_all add: demo_defs eval_defs plain_dec32_def)
  have c2: "plain_dec32 (totalEncryptedCollateral demoC50D80 1) = 50"
    and d2: "plain_dec32 (totalEncryptedDebt demoC50D80 1) = 80"
    and cur2: "currentBatchId demoC50D80 = 1"
    by (simp_all add: demo_defs eval_defs plain_dec32_def)
  obtain s1 where ok1: "calculateSolvency plainFHE ?m 1 demoC100D80 = Inr s1"
    by (simp add: demo_defs eval_defs)
  obtain s2 where ok2: "closeBatch plainFHE ?m demoC50D80 = Inr s2"
    by (simp add: demo_defs eval_defs)
  from solvency_flag_compares_totals [OF ge, of ?m 1 demoC100D80 s1] ok1
  have "plain_decb (isProtocolSolvent s1 1)
      = (plain_dec32 (totalEncryptedDebt demoC100D80 1)
           \<le> plain_dec32 (totalEncryptedCollateral demoC100D80 1))"
    by blast
  then have yes: "plain_decb (isProtocolSolvent s1 1)"
    by (simp add: c1 d1)
  from solvency_flag_compares_totals [OF ge, of ?m _ demoC50D80 s2] ok2
  have "plain_decb (isProtocolSolvent s2 (currentBatchId demoC50D80))
      = (plain_dec32 (totalEncryptedDebt demoC50D80 (currentBatchId demoC50D80))
           \<le> plain_dec32 (totalEncryptedCollateral demoC50D80 (currentBatchId demoC50D80)))"
    by blast
  then have no: "\<not> plain_decb (isProtocolSolvent s2 1)"
    by (simp add: cur2 c2 d2)
  from c1 d1 c2 d2 ok1 yes ok2 no show ?thesis by blast
qed

end
